theory Spec2Isabelle
  imports Main
begin

section \<open>Python values used by the schedule translator\<close>

text \<open>
  A Python \<open>str\<close> is a sequence of Unicode code points: slicing, \<open>str.split\<close> and
  \<open>re.split\<close> count code points, not bytes. The week suffix of the week-range field is
  one code point (U+5468), and campus names are written with non-ASCII characters, so a
  string is modelled as the list of its code points.
\<close>

type_synonym ustr = "nat list"

definition ascii :: "string \<Rightarrow> ustr" where
  "ascii s = map of_char s"

definition zhou :: nat where
  "zhou = 21608"

definition minus_sign :: nat where
  "minus_sign = 45"

definition plus_sign :: nat where
  "plus_sign = 43"

definition comma :: nat where
  "comma = 44"

definition colon :: nat where
  "colon = 58"

definition underscore :: nat where
  "underscore = 95"

definition space :: nat where
  "space = 32"

text \<open>
  The exceptions a run can end with, each with what the Python exception object carries.
  \<open>int\<close> raises \<open>ValueError\<close> in two ways: for an invalid literal the message quotes the
  string it was given, for a literal of too many digits it gives the number of digits.
  A dictionary lookup reports the missing key; an index out of range and a date out of
  range carry no datum of the input. \<open>ValidationError\<close> stands for the exceptions of the
  calendar library, with their message.
\<close>

datatype error =
    ValueError ustr
  | ValueErrorDigits nat
  | KeyError ustr
  | IndexError
  | OverflowError
  | ValidationError ustr

text \<open>Sequencing of fallible steps: the first exception ends the computation.\<close>

definition ebind :: "error + 'a \<Rightarrow> ('a \<Rightarrow> error + 'b) \<Rightarrow> error + 'b" where
  "ebind m f = (case m of Inl e \<Rightarrow> Inl e | Inr x \<Rightarrow> f x)"

text \<open>A list comprehension over a fallible function: left to right, first exception wins.\<close>

fun emap :: "('a \<Rightarrow> error + 'b) \<Rightarrow> 'a list \<Rightarrow> error + 'b list" where
  "emap f [] = Inr []"
| "emap f (x # xs) = ebind (f x) (\<lambda>y. ebind (emap f xs) (\<lambda>ys. Inr (y # ys)))"

text \<open>
  Python indexing \<open>xs[i]\<close>: a negative index counts from the end, an index out of range
  raises \<open>IndexError\<close>.
\<close>

definition getitem :: "'a list \<Rightarrow> int \<Rightarrow> error + 'a" where
  "getitem xs i =
     (if 0 \<le> i \<and> i < int (length xs) then Inr (xs ! nat i)
      else if i < 0 \<and> - int (length xs) \<le> i then Inr (xs ! nat (int (length xs) + i))
      else Inl IndexError)"

text \<open>A dictionary lookup \<open>d[k]\<close> with string keys: a missing key raises \<open>KeyError\<close>.\<close>

definition lookup :: "(ustr \<rightharpoonup> 'v) \<Rightarrow> ustr \<Rightarrow> error + 'v" where
  "lookup d k = (case d k of None \<Rightarrow> Inl (KeyError k) | Some v \<Rightarrow> Inr v)"

subsection \<open>Splitting\<close>

text \<open>
  \<open>s.split(sep)\<close> with a one-character separator and \<open>re.split\<close> with an alternation
  of single characters cut the string at every separator character and keep the empty
  pieces; the result always has at least one piece.
\<close>

fun split_on :: "('a \<Rightarrow> bool) \<Rightarrow> 'a list \<Rightarrow> 'a list list" where
  "split_on p [] = [[]]"
| "split_on p (c # cs) =
     (if p c then [] # split_on p cs
      else (case split_on p cs of
              [] \<Rightarrow> [[c]]
            | piece # pieces \<Rightarrow> (c # piece) # pieces))"

subsection \<open>The built-in \<open>int\<close> on strings\<close>

text \<open>
  \<open>int(s)\<close> in base 10, as CPython 3.11 with the Unicode 14 character database computes
  it. The string is first brought to ASCII: a character below 127 stays, a white-space
  character beyond becomes a space, a decimal digit of any script becomes the ASCII
  digit of its value, and any other character becomes one that no literal contains.
  Then ASCII white space is skipped, one sign is read, and the longest run of digits and
  underscores is scanned: it must be non-empty, begin and end with a digit and have no
  two underscores in a row. A run of more than 4300 digits (the default of the
  interpreter's limit) is refused with its count. Only white space may follow the run.
  An invalid literal raises the \<open>ValueError\<close> that quotes the string as given.

  The decimal digits of Unicode come in runs of ten consecutive code points, from the
  digit zero of a script upwards; \<open>decimal_zeros\<close> lists the zeros.
\<close>

definition is_space :: "nat \<Rightarrow> bool" where
  "is_space c \<longleftrightarrow> (9 \<le> c \<and> c \<le> 13) \<or> c = 32"

definition is_digit :: "nat \<Rightarrow> bool" where
  "is_digit c \<longleftrightarrow> 48 \<le> c \<and> c \<le> 57"

definition unicode_space :: "nat \<Rightarrow> bool" where
  "unicode_space c \<longleftrightarrow>
     c = 133 \<or> c = 160 \<or> c = 5760 \<or> (8192 \<le> c \<and> c \<le> 8202) \<or> c = 8232 \<or> c = 8233
     \<or> c = 8239 \<or> c = 8287 \<or> c = 12288"

definition decimal_zeros :: "nat list" where
  "decimal_zeros =
     [
      48, 1632, 1776, 1984, 2406, 2534, 2662, 2790,
      2918, 3046, 3174, 3302, 3430, 3558, 3664, 3792,
      3872, 4160, 4240, 6112, 6160, 6470, 6608, 6784,
      6800, 6992, 7088, 7232, 7248, 42528, 43216, 43264,
      43472, 43504, 43600, 44016, 65296, 66720, 68912, 69734,
      69872, 69942, 70096, 70384, 70736, 70864, 71248, 71360,
      71472, 71904, 72016, 72784, 73040, 73120, 92768, 92864,
      93008, 120782, 120792, 120802, 120812, 120822, 123200, 123632,
      125264, 130032
     ]"

definition todecimal :: "nat \<Rightarrow> nat option" where
  "todecimal c =
     map_option (\<lambda>z. c - z) (find (\<lambda>z. z \<le> c \<and> c < z + 10) decimal_zeros)"

definition to_ascii :: "nat \<Rightarrow> nat" where
  "to_ascii c =
     (if c < 127 then c
      else if unicode_space c then 32
      else (case todecimal c of Some v \<Rightarrow> 48 + v | None \<Rightarrow> 63))"

definition int_max_str_digits :: nat where
  "int_max_str_digits = 4300"

fun digits_ok :: "bool \<Rightarrow> ustr \<Rightarrow> bool" where
  "digits_ok prev_digit [] = prev_digit"
| "digits_ok prev_digit (c # cs) =
     (if is_digit c then digits_ok True cs
      else if c = underscore then prev_digit \<and> digits_ok False cs
      else False)"

fun digits_value :: "int \<Rightarrow> ustr \<Rightarrow> int" where
  "digits_value acc [] = acc"
| "digits_value acc (c # cs) =
     (if is_digit c then digits_value (acc * 10 + (int c - 48)) cs
      else digits_value acc cs)"

definition py_int :: "ustr \<Rightarrow> error + int" where
  "py_int s =
     (let t = dropWhile is_space (map to_ascii s);
          negative = (t \<noteq> [] \<and> hd t = minus_sign);
          body = (if t \<noteq> [] \<and> (hd t = minus_sign \<or> hd t = plus_sign) then tl t else t);
          run = takeWhile (\<lambda>c. is_digit c \<or> c = underscore) body;
          rest = dropWhile (\<lambda>c. is_digit c \<or> c = underscore) body;
          n = length (filter is_digit run)
      in if \<not> digits_ok False run then Inl (ValueError s)
         else if n > int_max_str_digits then Inl (ValueErrorDigits n)
         else if dropWhile is_space rest \<noteq> [] then Inl (ValueError s)
         else Inr (if negative then - digits_value 0 run else digits_value 0 run))"

section \<open>Week-range parser\<close>

text \<open>
  \<^verbatim>\<open>
  def parse_week_ranges(week_range_str):
      week_ranges = []
      week_ranges_strs = week_range_str.split(",")
      for week_range in week_ranges_strs:
          parsed_range = re.split(r"-|<week suffix>", week_range)
          parsed_range = [int(item) for item in parsed_range if item]
          week_ranges.append(parsed_range)
      return week_ranges
  \<close>
  One list of integers per comma-separated token: the token is cut at every hyphen and
  every week suffix, the empty pieces are dropped, and each remaining piece goes
  through \<open>int\<close>.
\<close>

definition parsed_range :: "ustr \<Rightarrow> error + int list" where
  "parsed_range week_range =
     emap py_int
       (filter (\<lambda>item. item \<noteq> [])
          (split_on (\<lambda>ch. ch = minus_sign \<or> ch = zhou) week_range))"

definition parse_week_ranges :: "ustr \<Rightarrow> error + int list list" where
  "parse_week_ranges week_range_str =
     emap parsed_range (split_on (\<lambda>ch. ch = comma) week_range_str)"

section \<open>Dates and times\<close>

text \<open>
  A \<open>datetime.date\<close> is identified with its proleptic Gregorian ordinal (day 1 is
  0001-01-01), which is how the library itself does date arithmetic; the largest date,
  9999-12-31, has ordinal 3652059. A \<open>datetime.datetime\<close> is the ordinal of its date,
  its clock fields and its time zone attribute, which arithmetic carries along
  unchanged. A \<open>timedelta\<close> is kept normalised as days, seconds and microseconds.
\<close>

datatype date = Date (toordinal: int)

record datetime =
  ordinal :: int
  hour :: int
  minute :: int
  second :: int
  microsecond :: int
  tzinfo :: "string option"

record timedelta =
  days :: int
  seconds :: int
  microseconds :: int

definition MAXORDINAL :: int where
  "MAXORDINAL = 3652059"

text \<open>The calendar of the library, used to name concrete dates.\<close>

definition is_leap :: "int \<Rightarrow> bool" where
  "is_leap y \<longleftrightarrow> y mod 4 = 0 \<and> (y mod 100 \<noteq> 0 \<or> y mod 400 = 0)"

definition days_before_year :: "int \<Rightarrow> int" where
  "days_before_year year = (let y = year - 1 in y * 365 + y div 4 - y div 100 + y div 400)"

definition days_before_month :: "int \<Rightarrow> int \<Rightarrow> int" where
  "days_before_month year month =
     [0, 0, 31, 59, 90, 120, 151, 181, 212, 243, 273, 304, 334] ! nat month
       + (if month > 2 \<and> is_leap year then 1 else 0)"

definition ymd2ord :: "int \<Rightarrow> int \<Rightarrow> int \<Rightarrow> int" where
  "ymd2ord year month day = days_before_year year + days_before_month year month + day"

text \<open>
  \<open>timedelta(weeks=w, days=d, hours=h, minutes=m)\<close> with integer arguments: the seconds
  are carried into the days, and more than 999999999 days either way is an
  \<open>OverflowError\<close>.
\<close>

definition timedelta_new :: "int \<Rightarrow> int \<Rightarrow> int \<Rightarrow> int \<Rightarrow> error + timedelta" where
  "timedelta_new weeks days_arg hours minutes =
     (let s = hours * 3600 + minutes * 60;
          d = days_arg + weeks * 7 + s div 86400
      in if \<bar>d\<bar> > 999999999 then Inl OverflowError
         else Inr \<lparr>days = d, seconds = s mod 86400, microseconds = 0\<rparr>)"

text \<open>
  \<open>datetime + timedelta\<close>: the clock fields and the delta are added, carried into the
  ordinal, and a date outside 0001-01-01 .. 9999-12-31 is an \<open>OverflowError\<close>.
\<close>

definition datetime_add :: "datetime \<Rightarrow> timedelta \<Rightarrow> error + datetime" where
  "datetime_add dt td =
     (let us = microsecond dt + microseconds td;
          s = hour dt * 3600 + minute dt * 60 + second dt + seconds td + us div 1000000;
          d = ordinal dt + days td + s div 86400;
          r = s mod 86400
      in if 0 < d \<and> d \<le> MAXORDINAL
         then Inr \<lparr>ordinal = d, hour = r div 3600, minute = r mod 3600 div 60,
                   second = r mod 60, microsecond = us mod 1000000, tzinfo = tzinfo dt\<rparr>
         else Inl OverflowError)"

text \<open>\<open>date + timedelta\<close> adds the days of the delta only.\<close>

definition date_add :: "date \<Rightarrow> timedelta \<Rightarrow> error + date" where
  "date_add d td =
     (let o' = toordinal d + days td
      in if 0 < o' \<and> o' \<le> MAXORDINAL then Inr (Date o') else Inl OverflowError)"

definition date_of :: "datetime \<Rightarrow> date" where
  "date_of dt = Date (ordinal dt)"

subsection \<open>The projector\<close>

text \<open>
  \<^verbatim>\<open>
  def convert_to_datetime(first_monday, week_number, day_of_week, time):
      return first_monday + datetime.timedelta(
          weeks=week_number - 1, days=day_of_week - 1,
          hours=int(time.split(":")[0]), minutes=int(time.split(":")[1]))

  def convert_to_date(first_monday, week_number, day_of_week):
      return first_monday.date() + datetime.timedelta(
          weeks=week_number - 1, days=day_of_week - 1)
  \<close>
\<close>

definition convert_to_datetime :: "datetime \<Rightarrow> int \<Rightarrow> int \<Rightarrow> ustr \<Rightarrow> error + datetime" where
  "convert_to_datetime first_monday week_number day_of_week time =
     ebind (getitem (split_on (\<lambda>ch. ch = colon) time) 0) (\<lambda>hs.
     ebind (py_int hs) (\<lambda>h.
     ebind (getitem (split_on (\<lambda>ch. ch = colon) time) 1) (\<lambda>ms.
     ebind (py_int ms) (\<lambda>m.
     ebind (timedelta_new (week_number - 1) (day_of_week - 1) h m) (\<lambda>td.
       datetime_add first_monday td)))))"

definition convert_to_date :: "datetime \<Rightarrow> int \<Rightarrow> int \<Rightarrow> error + date" where
  "convert_to_date first_monday week_number day_of_week =
     ebind (timedelta_new (week_number - 1) (day_of_week - 1) 0 0) (\<lambda>td.
       date_add (date_of first_monday) td)"

section \<open>Schedule translator\<close>

text \<open>
  One entry of the schedule's \<open>kbList\<close>, with the fields the translator reads, all
  strings: \<open>kcmc\<close> course name, \<open>xm\<close> instructor, \<open>xqj\<close> weekday index, \<open>jcor\<close>
  period range, \<open>zcd\<close> week ranges, \<open>xqmc\<close> campus name, \<open>cdmc\<close> room name. A
  weekday given as a JSON integer passes through \<open>int\<close> unchanged and is the case of its
  decimal string. The configuration is a dictionary whose key \<open>timetable\<close> holds the
  period table.
\<close>

record class_entry =
  kcmc :: ustr
  xm :: ustr
  xqj :: ustr
  jcor :: ustr
  zcd :: ustr
  xqmc :: ustr
  cdmc :: ustr

type_synonym configs = "ustr \<rightharpoonup> (ustr \<rightharpoonup> ustr)"

text \<open>
  The keyword arguments handed to \<open>ical.types.Recur\<close> and \<open>ical.event.Event\<close>. The
  calendar library is not part of the repository: its constructors validate their
  arguments and may raise. What they do is a parameter of the model, \<open>ical\<close>: for each
  record of arguments, the exception the constructor raises, or \<open>None\<close> when it returns
  the object. The calendar is modelled as the list of its events and the output file as
  the calendar written to it.
\<close>

datatype frequency = DAILY | WEEKLY | MONTHLY | YEARLY

record recur =
  freq :: frequency
  count :: int
  interval :: int

record event =
  dtstart :: datetime
  dtend :: datetime
  summary :: ustr
  description :: ustr
  location :: ustr
  rrule :: recur
  exdate :: "date list"

record ical =
  recur_error :: "recur \<Rightarrow> error option"
  event_error :: "event \<Rightarrow> error option"

definition construct :: "('a \<Rightarrow> error option) \<Rightarrow> 'a \<Rightarrow> error + 'a" where
  "construct validate args = (case validate args of Some e \<Rightarrow> Inl e | None \<Rightarrow> Inr args)"

text \<open>
  \<^verbatim>\<open>
  week_numbers = set()
  for week_range in week_ranges:
      week_numbers.update(range(week_range[0], week_range[-1] + 1))
  \<close>
  \<open>range(a, b + 1)\<close> runs over the integers from \<open>a\<close> to \<open>b\<close> inclusive, \<open>range(a, b)\<close>
  over those from \<open>a\<close> to \<open>b - 1\<close>.
\<close>

fun week_numbers_loop :: "int set \<Rightarrow> int list list \<Rightarrow> error + int set" where
  "week_numbers_loop week_numbers [] = Inr week_numbers"
| "week_numbers_loop week_numbers (week_range # rest) =
     ebind (getitem week_range 0) (\<lambda>a.
     ebind (getitem week_range (- 1)) (\<lambda>b.
       week_numbers_loop (week_numbers \<union> set [a..b]) rest))"

text \<open>
  \<^verbatim>\<open>
  recurring_rule = ical.types.Recur(
      freq=ical.types.Frequency.WEEKLY,
      count=week_ranges[-1][-1] - week_ranges[0][0] + 1,
      interval=1)
  \<close>
\<close>

definition recurring_rule :: "ical \<Rightarrow> int list list \<Rightarrow> error + recur" where
  "recurring_rule lib week_ranges =
     ebind (getitem week_ranges (- 1)) (\<lambda>last_range.
     ebind (getitem last_range (- 1)) (\<lambda>last_week.
     ebind (getitem week_ranges 0) (\<lambda>first_range.
     ebind (getitem first_range 0) (\<lambda>first_week.
       construct (recur_error lib)
         \<lparr>freq = WEEKLY, count = last_week - first_week + 1, interval = 1\<rparr>))))"

text \<open>
  \<^verbatim>\<open>
  exception_dates = []
  for week_number in range(week_ranges[0][0], week_ranges[-1][-1]):
      if week_number not in week_numbers:
          exception_dates.append(
              convert_to_date(first_monday, week_number, int(class_["xqj"])))
  \<close>
\<close>

fun exception_loop ::
  "datetime \<Rightarrow> ustr \<Rightarrow> int set \<Rightarrow> date list \<Rightarrow> int list \<Rightarrow> error + date list" where
  "exception_loop first_monday xqj_str week_numbers exception_dates [] = Inr exception_dates"
| "exception_loop first_monday xqj_str week_numbers exception_dates (week_number # rest) =
     (if week_number \<notin> week_numbers
      then ebind (py_int xqj_str) (\<lambda>day_of_week.
           ebind (convert_to_date first_monday week_number day_of_week) (\<lambda>d.
             exception_loop first_monday xqj_str week_numbers (exception_dates @ [d]) rest))
      else exception_loop first_monday xqj_str week_numbers exception_dates rest)"

definition exception_dates ::
  "datetime \<Rightarrow> ustr \<Rightarrow> int list list \<Rightarrow> int set \<Rightarrow> error + date list" where
  "exception_dates first_monday xqj_str week_ranges week_numbers =
     ebind (getitem week_ranges 0) (\<lambda>first_range.
     ebind (getitem first_range 0) (\<lambda>first_week.
     ebind (getitem week_ranges (- 1)) (\<lambda>last_range.
     ebind (getitem last_range (- 1)) (\<lambda>last_week.
       exception_loop first_monday xqj_str week_numbers [] [first_week..last_week - 1]))))"

text \<open>The slice \<open>s[:-2]\<close>: all but the last two code points, nothing of a shorter string.\<close>

definition drop_last2 :: "'a list \<Rightarrow> 'a list" where
  "drop_last2 s = take (length s - 2) s"

text \<open>
  The body of the loop over the class list: one entry becomes one event, or raises.
  The two constructors of the calendar library are called where the source calls them.
  \<^verbatim>\<open>
  week_ranges = parse_week_ranges(class_["zcd"])
  start_time_str = configs["timetable"][class_["jcor"].split("-")[0]].split("-")[0]
  end_time_str = configs["timetable"][class_["jcor"].split("-")[-1]].split("-")[-1]
  start_time = convert_to_datetime(
      first_monday, week_ranges[0][0], int(class_["xqj"]), start_time_str)
  end_time = convert_to_datetime(
      first_monday, week_ranges[0][0], int(class_["xqj"]), end_time_str)
  ... week_numbers, recurring_rule, exception_dates ...
  class_event = ical.event.Event(
      dtstart=start_time, dtend=end_time, summary=class_["kcmc"],
      description=class_["xm"],
      location=class_["xqmc"][:-2] + " " + class_["cdmc"],
      rrule=recurring_rule, exdate=exception_dates)
  \<close>
\<close>

definition time_str :: "configs \<Rightarrow> ustr \<Rightarrow> int \<Rightarrow> error + ustr" where
  "time_str cfg jcor_str i =
     ebind (lookup cfg (ascii ''timetable'')) (\<lambda>timetable.
     ebind (getitem (split_on (\<lambda>ch. ch = minus_sign) jcor_str) i) (\<lambda>period.
     ebind (lookup timetable period) (\<lambda>clock_range.
       getitem (split_on (\<lambda>ch. ch = minus_sign) clock_range) i)))"

definition class_time ::
  "datetime \<Rightarrow> int list list \<Rightarrow> ustr \<Rightarrow> ustr \<Rightarrow> error + datetime" where
  "class_time first_monday week_ranges xqj_str clock =
     ebind (getitem week_ranges 0) (\<lambda>first_range.
     ebind (getitem first_range 0) (\<lambda>first_week.
     ebind (py_int xqj_str) (\<lambda>day_of_week.
       convert_to_datetime first_monday first_week day_of_week clock)))"

definition class_event ::
  "ical \<Rightarrow> datetime \<Rightarrow> configs \<Rightarrow> class_entry \<Rightarrow> error + event" where
  "class_event lib first_monday cfg cls =
     ebind (parse_week_ranges (zcd cls)) (\<lambda>week_ranges.
     ebind (time_str cfg (jcor cls) 0) (\<lambda>start_time_str.
     ebind (time_str cfg (jcor cls) (- 1)) (\<lambda>end_time_str.
     ebind (class_time first_monday week_ranges (xqj cls) start_time_str) (\<lambda>start_time.
     ebind (class_time first_monday week_ranges (xqj cls) end_time_str) (\<lambda>end_time.
     ebind (week_numbers_loop {} week_ranges) (\<lambda>week_numbers.
     ebind (recurring_rule lib week_ranges) (\<lambda>rule.
     ebind (exception_dates first_monday (xqj cls) week_ranges week_numbers) (\<lambda>dates.
       construct (event_error lib)
         \<lparr>dtstart = start_time, dtend = end_time, summary = kcmc cls,
          description = xm cls,
          location = drop_last2 (xqmc cls) @ [space] @ cdmc cls,
          rrule = rule, exdate = dates\<rparr>))))))))"

text \<open>
  The run: every entry is translated in order and its event appended to the calendar;
  only after the loop is the output file opened and the calendar written. The state is
  the content of the output file (\<open>None\<close> while it does not exist); the result is the
  exception that ended the run, if any.
\<close>

fun events_loop ::
  "ical \<Rightarrow> datetime \<Rightarrow> configs \<Rightarrow> event list \<Rightarrow> class_entry list \<Rightarrow> error + event list" where
  "events_loop lib first_monday cfg events [] = Inr events"
| "events_loop lib first_monday cfg events (cls # rest) =
     ebind (class_event lib first_monday cfg cls) (\<lambda>ev.
       events_loop lib first_monday cfg (events @ [ev]) rest)"

definition convert_class_schedule_to_ics ::
  "ical \<Rightarrow> datetime \<Rightarrow> class_entry list \<Rightarrow> configs \<Rightarrow> event list option
     \<Rightarrow> error option \<times> event list option" where
  "convert_class_schedule_to_ics lib first_monday class_list cfg output_file =
     (case events_loop lib first_monday cfg [] class_list of
        Inl e \<Rightarrow> (Some e, output_file)
      | Inr class_schedule \<Rightarrow> (None, Some class_schedule))"

section \<open>Notions of the specification\<close>

text \<open>
  The instant of a \<open>datetime\<close>, in microseconds counted from the midnight that begins
  ordinal 0, and the ranges the library keeps its fields in. "Anchor plus so many weeks,
  days, hours and minutes" is a sum of instants.
\<close>

definition instant :: "datetime \<Rightarrow> int" where
  "instant dt =
     (((ordinal dt * 24 + hour dt) * 60 + minute dt) * 60 + second dt) * 1000000
       + microsecond dt"

definition valid_datetime :: "datetime \<Rightarrow> bool" where
  "valid_datetime dt \<longleftrightarrow>
     0 < ordinal dt \<and> ordinal dt \<le> MAXORDINAL \<and> 0 \<le> hour dt \<and> hour dt < 24 \<and>
     0 \<le> minute dt \<and> minute dt < 60 \<and> 0 \<le> second dt \<and> second dt < 60 \<and>
     0 \<le> microsecond dt \<and> microsecond dt < 1000000"

text \<open>Midnight of a calendar day, without time zone: how an anchor date is supplied.\<close>

definition midnight :: "int \<Rightarrow> int \<Rightarrow> int \<Rightarrow> datetime" where
  "midnight y m d =
     \<lparr>ordinal = ymd2ord y m d, hour = 0, minute = 0, second = 0, microsecond = 0,
      tzinfo = None\<rparr>"

text \<open>
  A week lies in a parsed week range when it is between the first and the last number of
  the range, both included.
\<close>

definition covered :: "int list list \<Rightarrow> int \<Rightarrow> bool" where
  "covered week_ranges w \<longleftrightarrow> list_ex (\<lambda>wr. hd wr \<le> w \<and> w \<le> last wr) week_ranges"

text \<open>
  The week-range field as the specification describes it: comma-separated tokens, each
  a start and an end week joined by a hyphen and followed by the week suffix, or one week
  number followed by the suffix. A week number is a non-empty run of decimal digits; up
  to 640 digits no configuration of the interpreter limits the conversion.
\<close>

definition week_number_text :: "ustr \<Rightarrow> bool" where
  "week_number_text a \<longleftrightarrow> a \<noteq> [] \<and> length a \<le> 640 \<and> list_all is_digit a"

definition decimal :: "ustr \<Rightarrow> int" where
  "decimal a = foldl (\<lambda>n c. n * 10 + (int c - 48)) 0 a"

datatype week_token = Range ustr ustr | Single ustr

fun token_text :: "week_token \<Rightarrow> ustr" where
  "token_text (Range a b) = a @ [minus_sign] @ b @ [zhou]"
| "token_text (Single a) = a @ [zhou]"

fun token_weeks :: "week_token \<Rightarrow> int list" where
  "token_weeks (Range a b) = [decimal a, decimal b]"
| "token_weeks (Single a) = [decimal a]"

fun token_ok :: "week_token \<Rightarrow> bool" where
  "token_ok (Range a b) \<longleftrightarrow> week_number_text a \<and> week_number_text b"
| "token_ok (Single a) \<longleftrightarrow> week_number_text a"

fun join_commas :: "ustr list \<Rightarrow> ustr" where
  "join_commas [] = []"
| "join_commas [t] = t"
| "join_commas (t # ts) = t @ [comma] @ join_commas ts"



subsection \<open>A sample schedule\<close>

text \<open>
  A period table with two periods, 08:00-08:45 and 08:55-09:40, and an entry on weekday
  2 over periods 1-2 whose week-range field is left open; the campus name has three
  code points, of which the last two are the suffix.
\<close>

definition sample_configs :: configs where
  "sample_configs =
     [ascii ''timetable'' \<mapsto>
        [ascii ''1'' \<mapsto> ascii ''08:00-08:45'', ascii ''2'' \<mapsto> ascii ''08:55-09:40'']]"

definition sample_class :: "ustr \<Rightarrow> ustr \<Rightarrow> class_entry" where
  "sample_class course weeks =
     \<lparr>kcmc = course, xm = ascii ''Li'', xqj = ascii ''2'', jcor = ascii ''1-2'',
      zcd = weeks, xqmc = [19996, 26657, 21306], cdmc = ascii ''A101''\<rparr>"

definition weeks_1_to_16 :: ustr where
  "weeks_1_to_16 = ascii ''1-16'' @ [zhou]"

definition weeks_1_to_4_and_6_to_8 :: ustr where
  "weeks_1_to_4_and_6_to_8 = ascii ''1-4'' @ [zhou] @ ascii '',6-8'' @ [zhou]"

text \<open>
  A calendar library that refuses a recurrence count below one and nothing else.
\<close>

definition sample_ical :: ical where
  "sample_ical =
     \<lparr>recur_error = (\<lambda>r. if count r < 1 then Some (ValidationError (ascii ''count'')) else None),
      event_error = (\<lambda>ev. None)\<rparr>"

definition weeks_abc :: ustr where
  "weeks_abc = ascii ''abc'' @ [zhou]"

definition week_5 :: ustr where
  "week_5 = ascii ''5'' @ [zhou]"

text \<open>
  The event expected of the sample entry under the anchor 2024-02-26: Tuesday of week 1
  from 08:00 to 09:40, with the recurrence count and exception dates left open.
\<close>

definition at_clock :: "datetime \<Rightarrow> int \<Rightarrow> int \<Rightarrow> datetime" where
  "at_clock dt h m = dt\<lparr>hour := h, minute := m\<rparr>"

definition sample_event :: "ustr \<Rightarrow> int \<Rightarrow> date list \<Rightarrow> event" where
  "sample_event course n dates =
     \<lparr>dtstart = at_clock (midnight 2024 2 27) 8 0, dtend = at_clock (midnight 2024 2 27) 9 40,
      summary = course, description = ascii ''Li'', location = 19996 # space # ascii ''A101'',
      rrule = \<lparr>freq = WEEKLY, count = n, interval = 1\<rparr>, exdate = dates\<rparr>"

section \<open>Basic facts\<close>

lemma ebind_Inl [simp]: "ebind (Inl e) f = Inl e"
  by (simp add: ebind_def)

lemma ebind_Inr [simp]: "ebind (Inr x) f = f x"
  by (simp add: ebind_def)

lemma ebind_eq_Inr: "ebind m f = Inr y \<longleftrightarrow> (\<exists>x. m = Inr x \<and> f x = Inr y)"
  by (cases m) simp_all

lemma ebind_eq_Inl: "ebind m f = Inl e \<longleftrightarrow> m = Inl e \<or> (\<exists>x. m = Inr x \<and> f x = Inl e)"
  by (cases m) simp_all

lemma getitem_first: "getitem xs 0 = (if xs = [] then Inl IndexError else Inr (hd xs))"
  by (cases xs) (simp_all add: getitem_def)

lemma getitem_last: "getitem xs (- 1) = (if xs = [] then Inl IndexError else Inr (last xs))"
  by (cases xs rule: rev_cases) (simp_all add: getitem_def nat_add_distrib)

lemma split_on_nonempty: "split_on p s \<noteq> []"
  by (induction s) (auto split: list.splits)

subsection \<open>Clock arithmetic\<close>

lemma clock_sum:
  fixes r :: int
  shows "(r div 3600 * 60 + r mod 3600 div 60) * 60 + r mod 60 = r"
proof -
  define h t m s
    where "h = r div 3600" and "t = r mod 3600" and "m = t div 60" and "s = r mod 60"
  have "s = t mod 60"
    by (simp add: s_def t_def mod_mod_cancel)
  then have a: "m * 60 + s = t"
    by (simp add: m_def)
  have b: "h * 3600 + t = r"
    by (simp add: h_def t_def)
  have "(h * 60 + m) * 60 + s = h * 3600 + (m * 60 + s)"
    by (simp add: algebra_simps)
  then have "(h * 60 + m) * 60 + s = r"
    by (simp add: a b)
  then show ?thesis
    by (simp add: h_def t_def m_def s_def)
qed

lemma clock_hour:
  fixes r :: int
  assumes "0 \<le> r" "r < 86400"
  shows "0 \<le> r div 3600 \<and> r div 3600 < 24"
  using assms by linarith

lemma clock_minute:
  fixes r :: int
  shows "0 \<le> r mod 3600 div 60 \<and> r mod 3600 div 60 < 60"
proof -
  have "0 \<le> r mod 3600" "r mod 3600 < 3600"
    by simp_all
  then show ?thesis
    by linarith
qed

lemma datetime_add_instant:
  assumes "valid_datetime dt" "microseconds td = 0"
    and "datetime_add dt td = Inr r"
  shows "instant r = instant dt + (days td * 86400 + seconds td) * 1000000
    \<and> valid_datetime r \<and> tzinfo r = tzinfo dt"
proof -
  define s where "s = hour dt * 3600 + minute dt * 60 + second dt + seconds td"
  define q where "q = s mod 86400"
  define o' where "o' = ordinal dt + days td + s div 86400"
  have us: "(microsecond dt + microseconds td) div 1000000 = 0"
    "(microsecond dt + microseconds td) mod 1000000 = microsecond dt"
    using assms(1,2) by (simp_all add: valid_datetime_def)
  have q: "0 \<le> q" "q < 86400"
    by (simp_all add: q_def)
  have ok: "0 < o' \<and> o' \<le> MAXORDINAL"
    using assms(3) unfolding datetime_add_def Let_def us o'_def s_def
    by (simp split: if_splits)
  then have r: "r = \<lparr>ordinal = o', hour = q div 3600, minute = q mod 3600 div 60,
      second = q mod 60, microsecond = microsecond dt, tzinfo = tzinfo dt\<rparr>"
    using assms(3) unfolding datetime_add_def Let_def us o'_def s_def q_def
    by simp
  have "instant r =
      (o' * 86400 + ((q div 3600 * 60 + q mod 3600 div 60) * 60 + q mod 60)) * 1000000
        + microsecond dt"
    by (simp add: r instant_def algebra_simps)
  also have "\<dots> = (o' * 86400 + q) * 1000000 + microsecond dt"
    by (simp only: clock_sum)
  also have "o' * 86400 + q = (ordinal dt + days td) * 86400 + (s div 86400 * 86400 + q)"
    by (simp add: o'_def algebra_simps)
  also have "s div 86400 * 86400 + q = s"
    by (simp add: q_def)
  finally have "instant r = instant dt + (days td * 86400 + seconds td) * 1000000"
    by (simp add: instant_def s_def algebra_simps)
  moreover have "valid_datetime r"
    using ok assms(1) clock_hour[OF q] clock_minute[of q] by (simp add: r valid_datetime_def)
  ultimately show ?thesis
    by (simp add: r)
qed

lemma datetime_add_day:
  assumes "valid_datetime dt" "microseconds td = 0"
  shows "(instant dt + (days td * 86400 + seconds td) * 1000000) div 86400000000 =
     ordinal dt + days td
       + (hour dt * 3600 + minute dt * 60 + second dt + seconds td) div 86400"
proof -
  define s where "s = hour dt * 3600 + minute dt * 60 + second dt + seconds td"
  define T where "T = (ordinal dt + days td) * 86400 + s"
  have us: "0 \<le> microsecond dt" "microsecond dt < 1000000"
    using assms(1) by (simp_all add: valid_datetime_def)
  have "instant dt + (days td * 86400 + seconds td) * 1000000 = T * 1000000 + microsecond dt"
    by (simp add: instant_def T_def s_def algebra_simps)
  moreover have "(T * 1000000 + microsecond dt) div (1000000 * 86400) =
      (T * 1000000 + microsecond dt) div 1000000 div 86400"
    by (rule zdiv_zmult2_eq) simp
  moreover have "(T * 1000000 + microsecond dt) div 1000000 = T"
    using us by simp
  moreover have "T div 86400 = ordinal dt + days td + s div 86400"
    by (simp add: T_def)
  ultimately show ?thesis
    by (simp add: s_def)
qed

lemma timedelta_new_eq:
  "timedelta_new weeks ds h m =
     (if \<bar>ds + weeks * 7 + (h * 3600 + m * 60) div 86400\<bar> > 999999999 then Inl OverflowError
      else Inr \<lparr>days = ds + weeks * 7 + (h * 3600 + m * 60) div 86400,
                seconds = (h * 3600 + m * 60) mod 86400, microseconds = 0\<rparr>)"
  by (simp add: timedelta_new_def Let_def)

lemma datetime_add_eq:
  assumes "valid_datetime dt" "microseconds td = 0"
    and "tot = instant dt + (days td * 86400 + seconds td) * 1000000"
  shows "if 0 < tot div 86400000000 \<and> tot div 86400000000 \<le> MAXORDINAL
         then \<exists>r. datetime_add dt td = Inr r \<and> instant r = tot \<and> valid_datetime r
                \<and> tzinfo r = tzinfo dt
         else datetime_add dt td = Inl OverflowError"
proof (cases "0 < tot div 86400000000 \<and> tot div 86400000000 \<le> MAXORDINAL")
  case True
  have us: "(microsecond dt + microseconds td) div 1000000 = 0"
    using assms(1,2) by (simp add: valid_datetime_def)
  have "\<exists>r. datetime_add dt td = Inr r"
    using True unfolding assms(3) datetime_add_day[OF assms(1,2)] datetime_add_def Let_def us
    by simp
  then obtain r where r: "datetime_add dt td = Inr r" ..
  from datetime_add_instant[OF assms(1,2) r] r True show ?thesis
    by (simp add: assms(3))
next
  case False
  have us: "(microsecond dt + microseconds td) div 1000000 = 0"
    using assms(1,2) by (simp add: valid_datetime_def)
  have "datetime_add dt td = Inl OverflowError"
    using False unfolding assms(3) datetime_add_day[OF assms(1,2)] datetime_add_def Let_def us
    by simp
  with False show ?thesis
    by simp
qed

lemma datetime_add_overflow:
  assumes "valid_datetime dt" "0 \<le> seconds td" "seconds td < 86400"
    and "\<bar>days td\<bar> > 999999999" "microseconds td = 0"
  shows "\<not> (0 < (instant dt + (days td * 86400 + seconds td) * 1000000) div 86400000000 \<and>
     (instant dt + (days td * 86400 + seconds td) * 1000000) div 86400000000 \<le> MAXORDINAL)"
proof -
  define c where "c = hour dt * 3600 + minute dt * 60 + second dt + seconds td"
  have "0 \<le> c" "c < 2 * 86400"
    using assms(1,2,3) by (simp_all add: valid_datetime_def c_def)
  then have "0 \<le> c div 86400 \<and> c div 86400 \<le> 1"
    by linarith
  moreover have "0 < ordinal dt" "ordinal dt \<le> 3652059"
    using assms(1) by (simp_all add: valid_datetime_def MAXORDINAL_def)
  ultimately show ?thesis
    unfolding datetime_add_day[OF assms(1,5)] c_def[symmetric] MAXORDINAL_def
    using assms(4) by linarith
qed

lemma convert_to_date_eq:
  assumes "valid_datetime anchor"
  shows "convert_to_date anchor w d =
     (if 0 < ordinal anchor + (w - 1) * 7 + (d - 1)
         \<and> ordinal anchor + (w - 1) * 7 + (d - 1) \<le> MAXORDINAL
      then Inr (Date (ordinal anchor + (w - 1) * 7 + (d - 1))) else Inl OverflowError)"
proof -
  have "0 < ordinal anchor" "ordinal anchor \<le> 3652059"
    using assms by (simp_all add: valid_datetime_def MAXORDINAL_def)
  then show ?thesis
    by (auto simp: convert_to_date_def timedelta_new_eq date_add_def date_of_def Let_def
        MAXORDINAL_def)
qed

lemma convert_to_datetime_eq:
  assumes "valid_datetime anchor"
    and "getitem (split_on (\<lambda>ch. ch = colon) clock) 0 = Inr hs" and "py_int hs = Inr h"
    and "getitem (split_on (\<lambda>ch. ch = colon) clock) 1 = Inr ms" and "py_int ms = Inr m"
    and "tot = instant anchor + ((((w - 1) * 7 + (d - 1)) * 24 + h) * 60 + m) * 60000000"
  shows "if 0 < tot div 86400000000 \<and> tot div 86400000000 \<le> MAXORDINAL
         then \<exists>r. convert_to_datetime anchor w d clock = Inr r \<and> instant r = tot
                \<and> valid_datetime r \<and> tzinfo r = tzinfo anchor
         else convert_to_datetime anchor w d clock = Inl OverflowError"
proof -
  define s where "s = h * 3600 + m * 60"
  define td where "td = \<lparr>days = (d - 1) + (w - 1) * 7 + s div 86400,
      seconds = s mod 86400, microseconds = 0\<rparr>"
  have td0: "microseconds td = 0" "0 \<le> seconds td" "seconds td < 86400"
    by (simp_all add: td_def)
  have "days td * 86400 + seconds td =
      ((d - 1) + (w - 1) * 7) * 86400 + (s div 86400 * 86400 + s mod 86400)"
    by (simp add: td_def algebra_simps)
  also have "\<dots> = ((d - 1) + (w - 1) * 7) * 86400 + s"
    by simp
  finally have tot: "tot = instant anchor + (days td * 86400 + seconds td) * 1000000"
    by (simp add: assms(6) s_def algebra_simps)
  have conv: "convert_to_datetime anchor w d clock =
      ebind (timedelta_new (w - 1) (d - 1) h m) (datetime_add anchor)"
    by (simp add: convert_to_datetime_def assms(2-5))
  show ?thesis
  proof (cases "\<bar>days td\<bar> > 999999999")
    case True
    then have "convert_to_datetime anchor w d clock = Inl OverflowError"
      by (simp add: conv timedelta_new_eq td_def s_def)
    with datetime_add_overflow[OF assms(1) td0(2,3) True td0(1)] show ?thesis
      by (simp add: tot)
  next
    case False
    then have "convert_to_datetime anchor w d clock = datetime_add anchor td"
      by (simp add: conv timedelta_new_eq td_def s_def)
    with datetime_add_eq[OF assms(1) td0(1) tot] show ?thesis
      by simp
  qed
qed

lemmas calendar_defs =
  midnight_def ymd2ord_def days_before_year_def days_before_month_def is_leap_def
  MAXORDINAL_def

lemmas char_defs =
  ascii_def zhou_def minus_sign_def plus_sign_def comma_def colon_def underscore_def
  space_def is_space_def is_digit_def

lemmas int_defs =
  py_int_def to_ascii_def unicode_space_def todecimal_def decimal_zeros_def
  int_max_str_digits_def

lemma valid_midnight_2024_02_26: "valid_datetime (midnight 2024 2 26)"
  by (simp add: valid_datetime_def calendar_defs)

subsection \<open>Loops\<close>


lemma emap_Inl_source: "emap f xs = Inl e \<Longrightarrow> \<exists>x\<in>set xs. f x = Inl e"
  by (induction xs) (auto simp: ebind_eq_Inl)

lemma emap_fails: "x \<in> set xs \<Longrightarrow> f x = Inl e \<Longrightarrow> \<exists>e'. emap f xs = Inl e'"
proof (induction xs)
  case Nil
  then show ?case by simp
next
  case (Cons a xs)
  show ?case
  proof (cases "f a")
    case (Inl e1)
    then show ?thesis by simp
  next
    case (Inr y)
    show ?thesis
    proof (cases "x = a")
      case True
      with Cons.prems Inr show ?thesis by simp
    next
      case False
      with Cons obtain e' where "emap f xs = Inl e'" by auto
      with Inr show ?thesis by simp
    qed
  qed
qed

lemma covered_Nil [simp]: "covered [] w \<longleftrightarrow> False"
  by (simp add: covered_def)

lemma covered_Cons [simp]:
  "covered (wr # wrs) w \<longleftrightarrow> (hd wr \<le> w \<and> w \<le> last wr) \<or> covered wrs w"
  by (simp add: covered_def)

lemma week_numbers_loop_eq:
  "week_numbers_loop S wrs =
     (if [] \<in> set wrs then Inl IndexError else Inr (S \<union> {w. covered wrs w}))"
proof (induction wrs arbitrary: S)
  case Nil
  then show ?case by auto
next
  case (Cons wr wrs)
  show ?case
  proof (cases "wr = []")
    case True
    then show ?thesis by (simp add: getitem_first)
  next
    case False
    have "S \<union> {hd wr..last wr} \<union> {w. covered wrs w} = S \<union> {w. covered (wr # wrs) w}"
      by auto
    with False Cons show ?thesis
      by (auto simp: getitem_first getitem_last)
  qed
qed

lemma exception_loop_eq:
  "exception_loop anchor x wn acc ws =
     ebind (emap (\<lambda>w. ebind (py_int x) (convert_to_date anchor w)) (filter (\<lambda>w. w \<notin> wn) ws))
       (\<lambda>ds. Inr (acc @ ds))"
proof (induction ws arbitrary: acc)
  case Nil
  then show ?case by simp
next
  case (Cons w ws)
  show ?case
  proof (cases "w \<in> wn")
    case True
    with Cons show ?thesis by simp
  next
    case False
    show ?thesis
    proof (cases "py_int x")
      case (Inl e)
      with False show ?thesis by simp
    next
      case d: (Inr d)
      show ?thesis
      proof (cases "convert_to_date anchor w d")
        case (Inl e)
        with False d show ?thesis by simp
      next
        case (Inr dt)
        show ?thesis
        proof (cases "emap (\<lambda>w. ebind (py_int x) (convert_to_date anchor w)) (filter (\<lambda>w. w \<notin> wn) ws)")
          case (Inl e)
          with False d Inr Cons show ?thesis by simp
        next
          case r: (Inr ds)
          with False d Inr Cons show ?thesis by simp
        qed
      qed
    qed
  qed
qed

subsection \<open>The sample schedule, evaluated\<close>

lemma sample_parse_16: "parse_week_ranges weeks_1_to_16 = Inr [[1, 16]]"
  by (simp add: weeks_1_to_16_def weeks_1_to_4_and_6_to_8_def parse_week_ranges_def
      parsed_range_def int_defs char_defs)

lemma sample_parse_gap:
  "parse_week_ranges weeks_1_to_4_and_6_to_8 = Inr [[1, 4], [6, 8]]"
  by (simp add: weeks_1_to_16_def weeks_1_to_4_and_6_to_8_def parse_week_ranges_def
      parsed_range_def int_defs char_defs)

lemma sample_start: "time_str sample_configs (ascii ''1-2'') 0 = Inr (ascii ''08:00'')"
  by (simp add: time_str_def sample_configs_def lookup_def getitem_def char_defs)

lemma sample_end: "time_str sample_configs (ascii ''1-2'') (- 1) = Inr (ascii ''09:40'')"
  by (simp add: time_str_def sample_configs_def lookup_def getitem_def char_defs)

lemma sample_weekday: "py_int (ascii ''2'') = Inr 2"
  by (simp add: int_defs char_defs)

lemma sample_clock_ints:
  "py_int [48, 56] = Inr 8" "py_int [48, 48] = Inr 0"
  "py_int [48, 57] = Inr 9" "py_int [52, 48] = Inr 40"
  by (simp_all add: int_defs char_defs)

lemma sample_start_time:
  "convert_to_datetime (midnight 2024 2 26) 1 2 (ascii ''08:00'') =
     Inr (at_clock (midnight 2024 2 27) 8 0)"
  by (simp add: convert_to_datetime_def getitem_def char_defs sample_clock_ints
      timedelta_new_eq datetime_add_def at_clock_def calendar_defs)

lemma sample_end_time:
  "convert_to_datetime (midnight 2024 2 26) 1 2 (ascii ''09:40'') =
     Inr (at_clock (midnight 2024 2 27) 9 40)"
  by (simp add: convert_to_datetime_def getitem_def char_defs sample_clock_ints
      timedelta_new_eq datetime_add_def at_clock_def calendar_defs)

lemma sample_event_16:
  assumes "recur_error lib \<lparr>freq = WEEKLY, count = 16, interval = 1\<rparr> = None"
    and "event_error lib (sample_event n 16 []) = None"
  shows "class_event lib (midnight 2024 2 26) sample_configs (sample_class n weeks_1_to_16) =
     Inr (sample_event n 16 [])"
  using assms
  by (simp add: sample_event_def class_event_def construct_def sample_class_def sample_parse_16 sample_start sample_end
      class_time_def getitem_first getitem_last sample_weekday sample_start_time sample_end_time
      week_numbers_loop_eq recurring_rule_def exception_dates_def exception_loop_eq drop_last2_def)

lemma sample_week_numbers_gap:
  "week_numbers_loop {} [[1, 4], [6, 8]] = Inr ({1..4} \<union> {6..8})"
  by (simp add: getitem_first getitem_last)

lemma sample_exceptions_gap:
  "exception_dates (midnight 2024 2 26) (ascii ''2'') [[1, 4], [6, 8]] ({1..4} \<union> {6..8}) =
     Inr [Date (ymd2ord 2024 3 26)]"
  unfolding exception_dates_def exception_loop_eq sample_weekday
    convert_to_date_eq[OF valid_midnight_2024_02_26]
  by (simp add: getitem_first getitem_last upto_rec1 calendar_defs)

lemma sample_event_gap:
  assumes "recur_error lib \<lparr>freq = WEEKLY, count = 8, interval = 1\<rparr> = None"
    and "event_error lib (sample_event n 8 [Date (ymd2ord 2024 3 26)]) = None"
  shows "class_event lib (midnight 2024 2 26) sample_configs
     (sample_class n weeks_1_to_4_and_6_to_8) =
     Inr (sample_event n 8 [Date (ymd2ord 2024 3 26)])"
  using assms
  by (simp add: sample_event_def class_event_def construct_def sample_class_def sample_parse_gap sample_start sample_end
      class_time_def getitem_first getitem_last sample_weekday sample_start_time sample_end_time
      sample_week_numbers_gap recurring_rule_def sample_exceptions_gap drop_last2_def)

lemma fullwidth_weeks_parse: "parse_week_ranges [65297, 45, 65299, 21608] = Inr [[1, 3]]"
  by (simp add: parse_week_ranges_def parsed_range_def int_defs char_defs)

lemma sample_translated_16:
  "class_event sample_ical (midnight 2024 2 26) sample_configs (sample_class n weeks_1_to_16) =
     Inr (sample_event n 16 [])"
  by (rule sample_event_16) (simp_all add: sample_ical_def)

lemma sample_translated_gap:
  "class_event sample_ical (midnight 2024 2 26) sample_configs
     (sample_class n weeks_1_to_4_and_6_to_8) =
     Inr (sample_event n 8 [Date (ymd2ord 2024 3 26)])"
  by (rule sample_event_gap) (simp_all add: sample_ical_def)

subsection \<open>What a translated entry went through\<close>

lemma construct_Inr: "construct validate args = Inr x \<longleftrightarrow> validate args = None \<and> x = args"
  by (auto simp: construct_def split: option.splits)


lemma class_event_Inr:
  assumes "class_event lib anchor cfg c = Inr ev"
  obtains wrs s1 s2 wn where
    "parse_week_ranges (zcd c) = Inr wrs"
    "time_str cfg (jcor c) 0 = Inr s1"
    "time_str cfg (jcor c) (- 1) = Inr s2"
    "class_time anchor wrs (xqj c) s1 = Inr (dtstart ev)"
    "class_time anchor wrs (xqj c) s2 = Inr (dtend ev)"
    "week_numbers_loop {} wrs = Inr wn"
    "recurring_rule lib wrs = Inr (rrule ev)"
    "exception_dates anchor (xqj c) wrs wn = Inr (exdate ev)"
    "summary ev = kcmc c" "description ev = xm c"
    "location ev = drop_last2 (xqmc c) @ [space] @ cdmc c"
    "event_error lib ev = None"
  using assms by (auto simp: class_event_def ebind_eq_Inr construct_Inr)

lemma class_time_Inr:
  assumes "class_time anchor wrs x s = Inr t"
  obtains d where "wrs \<noteq> []" "hd wrs \<noteq> []" "py_int x = Inr d"
    "convert_to_datetime anchor (hd (hd wrs)) d s = Inr t"
  using assms by (auto simp: class_time_def ebind_eq_Inr getitem_first split: if_splits)

lemma time_str_Inr:
  assumes "time_str cfg j i = Inr s"
  obtains timetable period clock_range where
    "cfg (ascii ''timetable'') = Some timetable"
    "getitem (split_on (\<lambda>ch. ch = minus_sign) j) i = Inr period"
    "timetable period = Some clock_range"
    "getitem (split_on (\<lambda>ch. ch = minus_sign) clock_range) i = Inr s"
  using assms by (auto simp: time_str_def ebind_eq_Inr lookup_def split: option.splits)

lemma recurring_rule_Inr:
  assumes "recurring_rule lib wrs = Inr r"
  shows "wrs \<noteq> [] \<and> hd wrs \<noteq> [] \<and> last wrs \<noteq> []
    \<and> r = \<lparr>freq = WEEKLY, count = last (last wrs) - hd (hd wrs) + 1, interval = 1\<rparr>
    \<and> recur_error lib r = None"
  using assms
  by (auto simp: recurring_rule_def ebind_eq_Inr getitem_first getitem_last construct_Inr
      split: if_splits)

lemma exception_dates_Inr:
  assumes "exception_dates anchor x wrs wn = Inr ds"
  shows "emap (\<lambda>w. ebind (py_int x) (convert_to_date anchor w))
           (filter (\<lambda>w. w \<notin> wn) [hd (hd wrs)..last (last wrs) - 1]) = Inr ds"
  using assms
  by (auto simp: exception_dates_def exception_loop_eq ebind_eq_Inr getitem_first getitem_last
      split: if_splits)

lemma gap_sweep:
  "exception_dates anchor x [[1, 4], [6, 8]] ({1..4} \<union> {6..8}) =
     ebind (py_int x) (\<lambda>d. ebind (convert_to_date anchor 5 d) (\<lambda>dt. Inr [dt]))"
  by (simp add: exception_dates_def exception_loop_eq getitem_first getitem_last upto_rec1 ebind_def
      split: sum.splits)

subsection \<open>Parsing well-formed tokens\<close>

lemma split_on_no_sep: "\<forall>c\<in>set s. \<not> p c \<Longrightarrow> split_on p s = [s]"
  by (induction s) auto

lemma split_on_append_sep:
  "\<forall>c\<in>set a. \<not> p c \<Longrightarrow> p x \<Longrightarrow> split_on p (a @ x # rest) = a # split_on p rest"
  by (induction a) auto

lemma digits_ok_digits: "list_all is_digit a \<Longrightarrow> digits_ok b a = (b \<or> a \<noteq> [])"
  by (induction a arbitrary: b) auto

lemma digits_value_foldl:
  "list_all is_digit a \<Longrightarrow> digits_value n a = foldl (\<lambda>n c. n * 10 + (int c - 48)) n a"
  by (induction a arbitrary: n) auto

lemma dropWhile_none: "\<forall>c\<in>set xs. \<not> p c \<Longrightarrow> dropWhile p xs = xs"
  by (cases xs) auto

lemma to_ascii_digits: "list_all is_digit a \<Longrightarrow> map to_ascii a = a"
  by (induction a) (auto simp: to_ascii_def is_digit_def)

lemma py_int_week_number:
  assumes "week_number_text a"
  shows "py_int a = Inr (decimal a)"
proof -
  from assms have d: "list_all is_digit a" and ne: "a \<noteq> []" and len: "length a \<le> 640"
    by (simp_all add: week_number_text_def)
  have ns: "\<forall>c\<in>set a. \<not> is_space c"
    using d by (auto simp: list_all_iff is_digit_def is_space_def)
  then have t: "dropWhile is_space (map to_ascii a) = a"
    by (simp add: to_ascii_digits[OF d] dropWhile_none)
  from d ne have "is_digit (hd a)"
    by (cases a) auto
  then have sign: "hd a \<noteq> minus_sign" "hd a \<noteq> plus_sign"
    by (auto simp: is_digit_def minus_sign_def plus_sign_def)
  have all: "\<forall>c\<in>set a. is_digit c \<or> c = underscore"
    using d by (simp add: list_all_iff)
  then have run: "takeWhile (\<lambda>c. is_digit c \<or> c = underscore) a = a"
    and rest: "dropWhile (\<lambda>c. is_digit c \<or> c = underscore) a = []"
    by (simp_all add: takeWhile_eq_all_conv)
  have count: "filter is_digit a = a"
    using d by (simp add: list_all_iff)
  show ?thesis
    unfolding py_int_def Let_def t
    using sign len ne
    by (simp add: run rest count digits_ok_digits[OF d] digits_value_foldl[OF d] decimal_def
        int_max_str_digits_def)
qed

lemma week_number_no_sep:
  assumes "week_number_text a"
  shows "\<forall>c\<in>set a. \<not> (c = minus_sign \<or> c = zhou)" and "\<forall>c\<in>set a. c \<noteq> comma"
  using assms
  by (auto simp: week_number_text_def list_all_iff is_digit_def char_defs)

lemma parsed_range_token:
  assumes "token_ok t"
  shows "parsed_range (token_text t) = Inr (token_weeks t)"
proof (cases t)
  case (Range a b)
  with assms have a: "week_number_text a" and b: "week_number_text b"
    by simp_all
  have "split_on (\<lambda>ch. ch = minus_sign \<or> ch = zhou) (a @ minus_sign # b @ [zhou]) = [a, b, []]"
    using week_number_no_sep(1)[OF a] week_number_no_sep(1)[OF b]
    by (simp add: split_on_append_sep)
  moreover have "a \<noteq> []" "b \<noteq> []"
    using a b by (simp_all add: week_number_text_def)
  ultimately show ?thesis
    using Range by (simp add: parsed_range_def py_int_week_number[OF a] py_int_week_number[OF b])
next
  case (Single a)
  with assms have a: "week_number_text a"
    by simp
  have "split_on (\<lambda>ch. ch = minus_sign \<or> ch = zhou) (a @ [zhou]) = [a, []]"
    using week_number_no_sep(1)[OF a] by (simp add: split_on_append_sep)
  moreover have "a \<noteq> []"
    using a by (simp add: week_number_text_def)
  ultimately show ?thesis
    using Single by (simp add: parsed_range_def py_int_week_number[OF a])
qed

lemma token_text_no_comma:
  assumes "token_ok t"
  shows "\<forall>c\<in>set (token_text t). \<not> c = comma"
  using assms week_number_no_sep(2)
  by (cases t) (auto simp: char_defs)

lemma split_join_commas:
  assumes "ts \<noteq> []" "\<forall>t\<in>set ts. \<forall>c\<in>set t. \<not> c = comma"
  shows "split_on (\<lambda>ch. ch = comma) (join_commas ts) = ts"
  using assms
proof (induction ts rule: join_commas.induct)
  case 1
  then show ?case by simp
next
  case (2 t)
  then show ?case by (simp add: split_on_no_sep)
next
  case (3 t u us)
  then show ?case by (simp add: split_on_append_sep)
qed

lemma emap_tokens:
  "\<forall>t\<in>set ts. token_ok t \<Longrightarrow> emap parsed_range (map token_text ts) = Inr (map token_weeks ts)"
  by (induction ts) (simp_all add: parsed_range_token)

lemma sample_parse_5: "parse_week_ranges week_5 = Inr [[5]]"
  by (simp add: week_5_def parse_week_ranges_def parsed_range_def int_defs char_defs)




subsection \<open>The run\<close>

lemma events_loop_eq:
  "events_loop lib anchor cfg events cs =
     ebind (emap (class_event lib anchor cfg) cs) (\<lambda>evs. Inr (events @ evs))"
proof (induction cs arbitrary: events)
  case Nil
  then show ?case by simp
next
  case (Cons c cs)
  show ?case
  proof (cases "class_event lib anchor cfg c")
    case (Inl e)
    then show ?thesis by simp
  next
    case (Inr ev)
    then show ?thesis
      by (cases "emap (class_event lib anchor cfg) cs") (simp_all add: Cons)
  qed
qed



lemma single_range_sweep:
  assumes "exception_dates anchor x [wr] wn = Inr ds" "week_numbers_loop {} [wr] = Inr wn"
  shows "ds = []"
proof -
  from assms(2) have wn: "wn = {w. covered [wr] w}"
    by (auto simp: week_numbers_loop_eq split: if_splits)
  have "filter (\<lambda>w. w \<notin> wn) [hd wr..last wr - 1] = []"
    by (auto simp: wn filter_empty_conv)
  with exception_dates_Inr[OF assms(1)] show ?thesis
    by simp
qed

lemma sample_run_16:
  assumes "recur_error lib \<lparr>freq = WEEKLY, count = 16, interval = 1\<rparr> = None"
    and "event_error lib (sample_event n 16 []) = None"
  shows "convert_class_schedule_to_ics lib (midnight 2024 2 26) [sample_class n weeks_1_to_16]
     sample_configs output_file = (None, Some [sample_event n 16 []])"
  by (simp add: convert_class_schedule_to_ics_def sample_event_16[OF assms])

lemma emap_first_failure:
  assumes "\<forall>b\<in>set before. \<exists>y. f b = Inr y" and "f c = Inl e"
  shows "emap f (before @ c # rest) = Inl e"
  using assms
proof (induction before)
  case Nil
  then show ?case by simp
next
  case (Cons b before)
  then obtain y where "f b = Inr y"
    by auto
  with Cons show ?case
    by simp
qed

lemma run_first_failure:
  assumes "\<forall>b\<in>set before. \<exists>ev. class_event lib anchor cfg b = Inr ev"
    and "class_event lib anchor cfg c = Inl e"
  shows "convert_class_schedule_to_ics lib anchor (before @ c # rest) cfg output_file
    = (Some e, output_file)"
  using emap_first_failure[where f = "class_event lib anchor cfg", OF assms]
  by (simp add: convert_class_schedule_to_ics_def events_loop_eq)

lemma run_aborts:
  assumes "c \<in> set class_list" "class_event lib anchor cfg c = Inl e"
  shows "\<exists>e'. convert_class_schedule_to_ics lib anchor class_list cfg output_file
    = (Some e', output_file)"
proof -
  from emap_fails[where f = "class_event lib anchor cfg", OF assms]
  obtain e' where "emap (class_event lib anchor cfg) class_list = Inl e'"
    by blast
  then show ?thesis
    by (simp add: convert_class_schedule_to_ics_def events_loop_eq)
qed

subsection \<open>Where an exception comes from\<close>







lemma parse_week_ranges_Inl:
  assumes "parse_week_ranges s = Inl e"
  shows "\<exists>token\<in>set (split_on (\<lambda>ch. ch = comma) s).
      \<exists>piece\<in>set (split_on (\<lambda>ch. ch = minus_sign \<or> ch = zhou) token).
        piece \<noteq> [] \<and> py_int piece = Inl e"
proof -
  from assms obtain token where token: "token \<in> set (split_on (\<lambda>ch. ch = comma) s)"
    and "parsed_range token = Inl e"
    unfolding parse_week_ranges_def by (blast dest: emap_Inl_source)
  then obtain piece where "piece \<in> set (filter (\<lambda>item. item \<noteq> [])
      (split_on (\<lambda>ch. ch = minus_sign \<or> ch = zhou) token))" and "py_int piece = Inl e"
    unfolding parsed_range_def by (blast dest: emap_Inl_source)
  with token show ?thesis
    by auto
qed

lemma py_int_Inl:
  assumes "py_int s = Inl e"
  shows "e = ValueError s \<or> (\<exists>n. e = ValueErrorDigits n \<and> 4300 < n \<and> n \<le> length s)"
proof -
  define t where "t = dropWhile is_space (map to_ascii s)"
  define body
    where "body = (if t \<noteq> [] \<and> (hd t = minus_sign \<or> hd t = plus_sign) then tl t else t)"
  define run where "run = takeWhile (\<lambda>c. is_digit c \<or> c = underscore) body"
  define n where "n = length (filter is_digit run)"
  have "length t \<le> length s"
    unfolding t_def using length_dropWhile_le[of is_space "map to_ascii s"] by simp
  moreover have "length body \<le> length t"
    by (simp add: body_def)
  moreover have "length run \<le> length body"
    unfolding run_def by (rule length_takeWhile_le)
  moreover have "n \<le> length run"
    by (simp add: n_def)
  ultimately have len: "n \<le> length s"
    by linarith
  have "\<exists>A C v. py_int s =
     (if A then Inl (ValueError s) else if n > int_max_str_digits then Inl (ValueErrorDigits n)
      else if C then Inl (ValueError s) else Inr v)"
    unfolding py_int_def Let_def n_def run_def body_def t_def by (intro exI) (rule refl)
  then obtain A C v where "py_int s =
     (if A then Inl (ValueError s) else if n > int_max_str_digits then Inl (ValueErrorDigits n)
      else if C then Inl (ValueError s) else Inr v)"
    by blast
  with assms len show ?thesis
    by (auto simp: int_max_str_digits_def split: if_splits)
qed











lemma parse_week_ranges_fails:
  assumes "token \<in> set (split_on (\<lambda>ch. ch = comma) s)"
    and "piece \<in> set (split_on (\<lambda>ch. ch = minus_sign \<or> ch = zhou) token)" "piece \<noteq> []"
    and "py_int piece = Inl e"
  shows "\<exists>e'. parse_week_ranges s = Inl e'"
proof -
  from assms(2,3) have "piece \<in> set (filter (\<lambda>item. item \<noteq> [])
      (split_on (\<lambda>ch. ch = minus_sign \<or> ch = zhou) token))"
    by simp
  from emap_fails[where f = py_int, OF this assms(4)]
  obtain e0 where "parsed_range token = Inl e0"
    by (auto simp: parsed_range_def)
  from emap_fails[where f = parsed_range, OF assms(1) this]
  show ?thesis
    by (simp add: parse_week_ranges_def)
qed




section \<open>The claims\<close>

text \<open>
  C4. The projector adds to the anchor \<open>(week - 1)\<close> weeks, \<open>(weekday - 1)\<close> days and the
  hours and minutes read from the clock string: whenever the sum is a representable day
  (0001-01-01 to 9999-12-31) the result is the date-time at exactly that instant, with
  the anchor's time zone, and otherwise the addition raises \<open>OverflowError\<close>. The date
  form is the same sum without the clock. For the anchor 2024-02-26, week 3 and weekday
  5 give 2024-03-15.
\<close>

theorem projector_adds_offsets_to_anchor:
  assumes "valid_datetime anchor"
    and "getitem (split_on (\<lambda>ch. ch = colon) clock) 0 = Inr hs" and "py_int hs = Inr h"
    and "getitem (split_on (\<lambda>ch. ch = colon) clock) 1 = Inr ms" and "py_int ms = Inr m"
    and "tot = instant anchor + ((((w - 1) * 7 + (d - 1)) * 24 + h) * 60 + m) * 60000000"
    and "day = ordinal anchor + (w - 1) * 7 + (d - 1)"
  shows "(if 0 < tot div 86400000000 \<and> tot div 86400000000 \<le> MAXORDINAL
          then \<exists>r. convert_to_datetime anchor w d clock = Inr r \<and> instant r = tot
                 \<and> valid_datetime r \<and> tzinfo r = tzinfo anchor
          else convert_to_datetime anchor w d clock = Inl OverflowError)
    \<and> convert_to_date anchor w d =
        (if 0 < day \<and> day \<le> MAXORDINAL then Inr (Date day) else Inl OverflowError)
    \<and> convert_to_date (midnight 2024 2 26) 3 5 = Inr (Date (ymd2ord 2024 3 15))"
proof -
  have "convert_to_date (midnight 2024 2 26) 3 5 = Inr (Date (ymd2ord 2024 3 15))"
    unfolding convert_to_date_eq[OF valid_midnight_2024_02_26]
    by (simp add: calendar_defs)
  with convert_to_datetime_eq[OF assms(1-6)] convert_to_date_eq[OF assms(1), of w d]
  show ?thesis
    by (simp only: assms(7))
qed

theorem projector_adds_offsets_to_anchor_witness:
  "valid_datetime (midnight 2024 2 26)
   \<and> (\<exists>r. convert_to_datetime (midnight 2024 2 26) 1 1 (ascii ''08:00'') = Inr r
        \<and> instant r = instant (midnight 2024 2 26) + 8 * 3600000000
        \<and> valid_datetime r \<and> tzinfo r = None)
   \<and> convert_to_date (midnight 2024 2 26) 1 1 = Inr (Date (ymd2ord 2024 2 26))"
proof -
  have a: "getitem (split_on (\<lambda>ch. ch = colon) (ascii ''08:00'')) 0 = Inr (ascii ''08'')"
    and b: "getitem (split_on (\<lambda>ch. ch = colon) (ascii ''08:00'')) 1 = Inr (ascii ''00'')"
    by (simp_all add: getitem_def char_defs)
  have c: "py_int (ascii ''08'') = Inr 8" and d: "py_int (ascii ''00'') = Inr 0"
    by (simp_all add: int_defs char_defs)
  have i: "instant (midnight 2024 2 26) = 63844588800000000"
    by (simp add: instant_def calendar_defs)
  note sum = projector_adds_offsets_to_anchor
    [OF valid_midnight_2024_02_26 a c b d refl refl, of 1 1, unfolded i]
  show ?thesis
    unfolding i using sum valid_midnight_2024_02_26 by (simp add: calendar_defs)
qed

text \<open>
  C1. When an entry is translated, its exception dates are the date-only projections
  \<open>convert_to_date anchor w weekday\<close>, in increasing order of \<open>w\<close>, of exactly the weeks
  \<open>w\<close> from the first number of the first parsed range up to the last number of the
  last parsed range minus one that lie in no parsed range. For the ranges
  \<open>[[1,4],[6,8]]\<close> the covered weeks are 1..4 and 6..8 and the only week projected is 5;
  week 8 is not in the sweep.
\<close>

theorem exception_dates_are_uncovered_weeks:
  assumes "class_event lib anchor cfg c = Inr ev"
  shows "(\<exists>wrs d. parse_week_ranges (zcd c) = Inr wrs \<and> wrs \<noteq> [] \<and> [] \<notin> set wrs
           \<and> py_int (xqj c) = Inr d
           \<and> emap (\<lambda>w. convert_to_date anchor w d)
               (filter (\<lambda>w. \<not> covered wrs w) [hd (hd wrs)..last (last wrs) - 1])
             = Inr (exdate ev))
    \<and> week_numbers_loop {} [[1, 4], [6, 8]] = Inr ({1..4} \<union> {6..8})
    \<and> exception_dates anchor x [[1, 4], [6, 8]] ({1..4} \<union> {6..8}) =
        ebind (py_int x) (\<lambda>d. ebind (convert_to_date anchor 5 d) (\<lambda>dt. Inr [dt]))"
proof -
  from assms obtain wrs s1 wn where
    p: "parse_week_ranges (zcd c) = Inr wrs"
    and t: "class_time anchor wrs (xqj c) s1 = Inr (dtstart ev)"
    and w: "week_numbers_loop {} wrs = Inr wn"
    and e: "exception_dates anchor (xqj c) wrs wn = Inr (exdate ev)"
    by (rule class_event_Inr)
  from t obtain d where ne: "wrs \<noteq> []" and d: "py_int (xqj c) = Inr d"
    by (rule class_time_Inr)
  from w have full: "[] \<notin> set wrs" and wn: "wn = {w. covered wrs w}"
    by (auto simp: week_numbers_loop_eq split: if_splits)
  from exception_dates_Inr[OF e]
  have "emap (\<lambda>w. convert_to_date anchor w d)
      (filter (\<lambda>w. \<not> covered wrs w) [hd (hd wrs)..last (last wrs) - 1]) = Inr (exdate ev)"
    by (simp add: d wn)
  with p ne full d have "\<exists>wrs d. parse_week_ranges (zcd c) = Inr wrs \<and> wrs \<noteq> []
      \<and> [] \<notin> set wrs \<and> py_int (xqj c) = Inr d
      \<and> emap (\<lambda>w. convert_to_date anchor w d)
          (filter (\<lambda>w. \<not> covered wrs w) [hd (hd wrs)..last (last wrs) - 1])
        = Inr (exdate ev)"
    by blast
  then show ?thesis
    using sample_week_numbers_gap gap_sweep[of anchor x] by - (intro conjI, assumption+)
qed

theorem exception_dates_are_uncovered_weeks_witness:
  "class_event sample_ical (midnight 2024 2 26) sample_configs
      (sample_class (ascii ''Algebra'') weeks_1_to_4_and_6_to_8)
     = Inr (sample_event (ascii ''Algebra'') 8 [Date (ymd2ord 2024 3 26)])
   \<and> (\<exists>wrs d. parse_week_ranges weeks_1_to_4_and_6_to_8 = Inr wrs \<and> wrs \<noteq> [] \<and> [] \<notin> set wrs
        \<and> py_int (ascii ''2'') = Inr d
        \<and> emap (\<lambda>w. convert_to_date (midnight 2024 2 26) w d)
            (filter (\<lambda>w. \<not> covered wrs w) [hd (hd wrs)..last (last wrs) - 1])
          = Inr [Date (ymd2ord 2024 3 26)])"
proof -
  note ev = sample_translated_gap[of "ascii ''Algebra''"]
  from exception_dates_are_uncovered_weeks[OF ev, THEN conjunct1] ev show ?thesis
    by (simp add: sample_class_def sample_event_def)
qed

text \<open>
  C2. When an entry is translated, its recurrence rule is weekly with interval 1 and
  its count is the last number of the last parsed range minus the first number of the
  first parsed range plus one.
\<close>

theorem recurrence_rule_spans_first_to_last_week:
  assumes "class_event lib anchor cfg c = Inr ev"
  shows "\<exists>wrs. parse_week_ranges (zcd c) = Inr wrs \<and> wrs \<noteq> [] \<and> hd wrs \<noteq> []
    \<and> last wrs \<noteq> []
    \<and> rrule ev = \<lparr>freq = WEEKLY, count = last (last wrs) - hd (hd wrs) + 1, interval = 1\<rparr>"
proof -
  from assms obtain wrs where p: "parse_week_ranges (zcd c) = Inr wrs"
    and r: "recurring_rule lib wrs = Inr (rrule ev)"
    by (rule class_event_Inr)
  from recurring_rule_Inr[OF r] p show ?thesis
    by blast
qed

theorem recurrence_rule_spans_first_to_last_week_witness:
  "class_event sample_ical (midnight 2024 2 26) sample_configs
      (sample_class (ascii ''Algebra'') weeks_1_to_4_and_6_to_8)
     = Inr (sample_event (ascii ''Algebra'') 8 [Date (ymd2ord 2024 3 26)])
   \<and> (\<exists>wrs. parse_week_ranges weeks_1_to_4_and_6_to_8 = Inr wrs \<and> wrs \<noteq> [] \<and> hd wrs \<noteq> []
        \<and> last wrs \<noteq> []
        \<and> \<lparr>freq = WEEKLY, count = 8, interval = 1\<rparr>
          = \<lparr>freq = WEEKLY, count = last (last wrs) - hd (hd wrs) + 1, interval = 1\<rparr>)"
proof -
  note ev = sample_translated_gap[of "ascii ''Algebra''"]
  from recurrence_rule_spans_first_to_last_week[OF ev] ev show ?thesis
    by (simp add: sample_class_def sample_event_def)
qed

text \<open>
  C3. When an entry is translated, its start is the projection of the first number of
  the first parsed week range, the entry's weekday and the part before the first hyphen
  of the timetable entry of the first component of the period token; its end is the
  projection of the same week and weekday and the part after the last hyphen of the
  timetable entry of the last component of the period token.
\<close>

theorem event_times_use_first_week_and_period_clocks:
  assumes "class_event lib anchor cfg c = Inr ev"
  shows "\<exists>wrs d timetable first_clock last_clock.
      parse_week_ranges (zcd c) = Inr wrs \<and> wrs \<noteq> [] \<and> hd wrs \<noteq> []
    \<and> py_int (xqj c) = Inr d
    \<and> cfg (ascii ''timetable'') = Some timetable
    \<and> timetable (hd (split_on (\<lambda>ch. ch = minus_sign) (jcor c))) = Some first_clock
    \<and> timetable (last (split_on (\<lambda>ch. ch = minus_sign) (jcor c))) = Some last_clock
    \<and> convert_to_datetime anchor (hd (hd wrs)) d
         (hd (split_on (\<lambda>ch. ch = minus_sign) first_clock)) = Inr (dtstart ev)
    \<and> convert_to_datetime anchor (hd (hd wrs)) d
         (last (split_on (\<lambda>ch. ch = minus_sign) last_clock)) = Inr (dtend ev)"
proof -
  from assms obtain wrs s1 s2 where p: "parse_week_ranges (zcd c) = Inr wrs"
    and s1: "time_str cfg (jcor c) 0 = Inr s1"
    and s2: "time_str cfg (jcor c) (- 1) = Inr s2"
    and t1: "class_time anchor wrs (xqj c) s1 = Inr (dtstart ev)"
    and t2: "class_time anchor wrs (xqj c) s2 = Inr (dtend ev)"
    by (rule class_event_Inr)
  from t1 obtain d where ne: "wrs \<noteq> []" "hd wrs \<noteq> []" and d: "py_int (xqj c) = Inr d"
    and c1: "convert_to_datetime anchor (hd (hd wrs)) d s1 = Inr (dtstart ev)"
    by (rule class_time_Inr)
  from t2 d have c2: "convert_to_datetime anchor (hd (hd wrs)) d s2 = Inr (dtend ev)"
    by (auto elim: class_time_Inr)
  from s1 obtain tt k1 v1 where tt: "cfg (ascii ''timetable'') = Some tt"
    and k1: "getitem (split_on (\<lambda>ch. ch = minus_sign) (jcor c)) 0 = Inr k1"
    and v1: "tt k1 = Some v1"
    and g1: "getitem (split_on (\<lambda>ch. ch = minus_sign) v1) 0 = Inr s1"
    by (rule time_str_Inr)
  from s2 tt obtain k2 v2 where
    k2: "getitem (split_on (\<lambda>ch. ch = minus_sign) (jcor c)) (- 1) = Inr k2"
    and v2: "tt k2 = Some v2"
    and g2: "getitem (split_on (\<lambda>ch. ch = minus_sign) v2) (- 1) = Inr s2"
    by (auto elim: time_str_Inr)
  have "k1 = hd (split_on (\<lambda>ch. ch = minus_sign) (jcor c))"
    "s1 = hd (split_on (\<lambda>ch. ch = minus_sign) v1)"
    using k1 g1 by (simp_all add: getitem_first split_on_nonempty)
  moreover have "k2 = last (split_on (\<lambda>ch. ch = minus_sign) (jcor c))"
    "s2 = last (split_on (\<lambda>ch. ch = minus_sign) v2)"
    using k2 g2 by (simp_all add: getitem_last split_on_nonempty)
  ultimately show ?thesis
    using p ne d tt v1 v2 c1 c2 by blast
qed

theorem event_times_use_first_week_and_period_clocks_witness:
  "class_event sample_ical (midnight 2024 2 26) sample_configs
      (sample_class (ascii ''Algebra'') weeks_1_to_4_and_6_to_8)
     = Inr (sample_event (ascii ''Algebra'') 8 [Date (ymd2ord 2024 3 26)])
   \<and> (\<exists>wrs d timetable first_clock last_clock.
        parse_week_ranges weeks_1_to_4_and_6_to_8 = Inr wrs \<and> wrs \<noteq> [] \<and> hd wrs \<noteq> []
      \<and> py_int (ascii ''2'') = Inr d
      \<and> sample_configs (ascii ''timetable'') = Some timetable
      \<and> timetable (hd (split_on (\<lambda>ch. ch = minus_sign) (ascii ''1-2''))) = Some first_clock
      \<and> timetable (last (split_on (\<lambda>ch. ch = minus_sign) (ascii ''1-2''))) = Some last_clock
      \<and> convert_to_datetime (midnight 2024 2 26) (hd (hd wrs)) d
           (hd (split_on (\<lambda>ch. ch = minus_sign) first_clock))
         = Inr (at_clock (midnight 2024 2 27) 8 0)
      \<and> convert_to_datetime (midnight 2024 2 26) (hd (hd wrs)) d
           (last (split_on (\<lambda>ch. ch = minus_sign) last_clock))
         = Inr (at_clock (midnight 2024 2 27) 9 40))"
proof -
  note ev = sample_translated_gap[of "ascii ''Algebra''"]
  from event_times_use_first_week_and_period_clocks[OF ev] ev show ?thesis
    by (simp add: sample_class_def sample_event_def)
qed

text \<open>
  C8. When an entry is translated, the location of its event is the campus field
  without its last two code points (without all of them when it has fewer than two),
  then one space, then the room name.
\<close>

theorem location_is_trimmed_campus_space_room:
  assumes "class_event lib anchor cfg c = Inr ev"
  shows "\<exists>kept cut. xqmc c = kept @ cut \<and> length cut = min 2 (length (xqmc c))
    \<and> location ev = kept @ [32] @ cdmc c"
proof -
  from assms have "location ev = drop_last2 (xqmc c) @ [space] @ cdmc c"
    by (rule class_event_Inr)
  moreover have "xqmc c = drop_last2 (xqmc c) @ drop (length (xqmc c) - 2) (xqmc c)"
    by (simp add: drop_last2_def)
  moreover have "length (drop (length (xqmc c) - 2) (xqmc c)) = min 2 (length (xqmc c))"
    by auto
  ultimately show ?thesis
    unfolding space_def by blast
qed

theorem location_is_trimmed_campus_space_room_witness:
  "class_event sample_ical (midnight 2024 2 26) sample_configs (sample_class (ascii ''Algebra'') weeks_1_to_16)
     = Inr (sample_event (ascii ''Algebra'') 16 [])
   \<and> (\<exists>kept cut. [19996, 26657, 21306] = kept @ cut \<and> length cut = (2::nat)
        \<and> 19996 # space # ascii ''A101'' = kept @ [32] @ ascii ''A101'')"
proof -
  note ev = sample_translated_16[of "ascii ''Algebra''"]
  from location_is_trimmed_campus_space_room[OF ev] ev show ?thesis
    by (simp add: sample_class_def sample_event_def)
qed

text \<open>
  C5, as stated, fails: the token of a single week number followed by the week suffix
  is parsed to a list of one integer, not to a pair. For the field of week 5 alone the
  parser returns \<open>[[5]]\<close>.
\<close>

theorem single_week_token_parses_to_one_number:
  "parse_week_ranges week_5 = Inr [[5]] \<and> parse_week_ranges week_5 \<noteq> Inr [[5, 5]]"
  by (simp add: sample_parse_5)

text \<open>
  C5, amended. For a week-range string made of one or more comma-separated tokens,
  each either two week numbers joined by a hyphen and followed by the week suffix or one
  week number followed by the suffix, the parser returns one list per token, in source
  order: the two numbers of a range token, the one number of a single-week token.
\<close>

theorem parser_returns_one_list_per_token:
  assumes "tokens \<noteq> []" and "\<forall>t\<in>set tokens. token_ok t"
  shows "parse_week_ranges (join_commas (map token_text tokens)) = Inr (map token_weeks tokens)"
proof -
  have "split_on (\<lambda>ch. ch = comma) (join_commas (map token_text tokens)) = map token_text tokens"
    using assms token_text_no_comma by (intro split_join_commas) auto
  moreover have "emap parsed_range (map token_text tokens) = Inr (map token_weeks tokens)"
    using assms(2) by (rule emap_tokens)
  ultimately show ?thesis
    by (simp add: parse_week_ranges_def)
qed

theorem parser_returns_one_list_per_token_witness:
  "[Range (ascii ''1'') (ascii ''4''), Single (ascii ''6'')] \<noteq> []
   \<and> list_all token_ok [Range (ascii ''1'') (ascii ''4''), Single (ascii ''6'')]
   \<and> parse_week_ranges (ascii ''1-4'' @ [zhou] @ ascii '',6'' @ [zhou]) = Inr [[1, 4], [6]]"
proof -
  have ok: "\<forall>t\<in>set [Range (ascii ''1'') (ascii ''4''), Single (ascii ''6'')]. token_ok t"
    by (simp add: week_number_text_def char_defs)
  have ne: "[Range (ascii ''1'') (ascii ''4''), Single (ascii ''6'')] \<noteq> []"
    by simp
  from parser_returns_one_list_per_token[OF ne ok] ok show ?thesis
    by (simp add: decimal_def char_defs)
qed



text \<open>
  C6. A translated entry whose week-range field parses to a single range has no
  exception dates. With every calendar library that accepts the recurrence rule of
  count 16 and the event, the run over the one sample entry with weeks 1-16, weekday 2
  and periods 1-2 (08:00 to 09:40) raises nothing and writes a calendar of exactly one
  event, with recurrence count 16 and no exception dates.
\<close>

theorem single_range_yields_no_exception_dates:
  assumes "class_event lib anchor cfg c = Inr ev" and "parse_week_ranges (zcd c) = Inr [wr]"
  shows "exdate ev = []
    \<and> (recur_error lib \<lparr>freq = WEEKLY, count = 16, interval = 1\<rparr> = None
        \<longrightarrow> event_error lib (sample_event course 16 []) = None
        \<longrightarrow> convert_class_schedule_to_ics lib (midnight 2024 2 26)
              [sample_class course weeks_1_to_16] sample_configs output_file
            = (None, Some [sample_event course 16 []]))"
proof -
  from assms(1) obtain wrs wn where p: "parse_week_ranges (zcd c) = Inr wrs"
    and w: "week_numbers_loop {} wrs = Inr wn"
    and e: "exception_dates anchor (xqj c) wrs wn = Inr (exdate ev)"
    by (rule class_event_Inr)
  from p assms(2) have "wrs = [wr]"
    by simp
  with w e have "exdate ev = []"
    by (auto dest: single_range_sweep)
  then show ?thesis
    using sample_run_16[of lib course output_file] by blast
qed

theorem single_range_yields_no_exception_dates_witness:
  "class_event sample_ical (midnight 2024 2 26) sample_configs
      (sample_class (ascii ''Algebra'') weeks_1_to_16)
     = Inr (sample_event (ascii ''Algebra'') 16 [])
   \<and> parse_week_ranges weeks_1_to_16 = Inr [[1, 16]]
   \<and> exdate (sample_event (ascii ''Algebra'') 16 []) = []
   \<and> convert_class_schedule_to_ics sample_ical (midnight 2024 2 26)
        [sample_class (ascii ''Algebra'') weeks_1_to_16] sample_configs None
      = (None, Some [sample_event (ascii ''Algebra'') 16 []])"
proof -
  note ev = sample_translated_16[of "ascii ''Algebra''"]
  have p: "parse_week_ranges (zcd (sample_class (ascii ''Algebra'') weeks_1_to_16)) = Inr [[1, 16]]"
    by (simp add: sample_class_def sample_parse_16)
  have ok: "recur_error sample_ical \<lparr>freq = WEEKLY, count = 16, interval = 1\<rparr> = None"
    "event_error sample_ical (sample_event (ascii ''Algebra'') 16 []) = None"
    by (simp_all add: sample_ical_def)
  from single_range_yields_no_exception_dates[OF ev p, of "ascii ''Algebra''" None] ok ev
    sample_parse_16
  show ?thesis
    by simp
qed

text \<open>
  C7. If a token of an entry's week-range field has a non-empty piece that \<open>int\<close>
  rejects, the parser raises the \<open>ValueError\<close> of \<open>int\<close> for a rejected piece and so
  does the translation of that entry. The run over any class list containing the entry
  ends with an exception and leaves the output file as it was: nothing is written and
  no later entry is skipped to. When the entries before it translate, the exception of
  the run is that \<open>ValueError\<close>.
\<close>

theorem malformed_week_token_aborts_run:
  assumes "c \<in> set class_list"
    and "token \<in> set (split_on (\<lambda>ch. ch = comma) (zcd c))"
    and "piece \<in> set (split_on (\<lambda>ch. ch = minus_sign \<or> ch = zhou) token)" "piece \<noteq> []"
    and "py_int piece = Inl e"
  shows "\<exists>t e'. py_int t = Inl e' \<and> (e' = ValueError t \<or> (\<exists>n. e' = ValueErrorDigits n))
    \<and> parse_week_ranges (zcd c) = Inl e'
    \<and> class_event lib anchor cfg c = Inl e'
    \<and> (\<exists>e''. convert_class_schedule_to_ics lib anchor class_list cfg output_file
          = (Some e'', output_file))
    \<and> (\<forall>before rest. class_list = before @ c # rest
          \<longrightarrow> (\<forall>b\<in>set before. \<exists>ev. class_event lib anchor cfg b = Inr ev)
          \<longrightarrow> convert_class_schedule_to_ics lib anchor class_list cfg output_file
              = (Some e', output_file))"
proof -
  from parse_week_ranges_fails[OF assms(2-5)] obtain e'
    where p: "parse_week_ranges (zcd c) = Inl e'"
    by blast
  from parse_week_ranges_Inl[OF p] obtain t where t: "py_int t = Inl e'"
    by blast
  from py_int_Inl[OF t] have k: "e' = ValueError t \<or> (\<exists>n. e' = ValueErrorDigits n)"
    by blast
  from p have c: "class_event lib anchor cfg c = Inl e'"
    by (simp add: class_event_def)
  note ab = run_aborts[OF assms(1) c, of output_file]
  have first: "\<forall>before rest. class_list = before @ c # rest
      \<longrightarrow> (\<forall>b\<in>set before. \<exists>ev. class_event lib anchor cfg b = Inr ev)
      \<longrightarrow> convert_class_schedule_to_ics lib anchor class_list cfg output_file
          = (Some e', output_file)"
  proof (intro allI impI)
    fix before rest
    assume l: "class_list = before @ c # rest"
      and g: "\<forall>b\<in>set before. \<exists>ev. class_event lib anchor cfg b = Inr ev"
    show "convert_class_schedule_to_ics lib anchor class_list cfg output_file
        = (Some e', output_file)"
      unfolding l by (rule run_first_failure[OF g c])
  qed
  from t k p c ab first show ?thesis
    by - (rule exI[of _ t], rule exI[of _ e'], intro conjI, assumption+)
qed

theorem malformed_week_token_aborts_run_witness:
  "ascii ''abc'' \<in> set (split_on (\<lambda>ch. ch = minus_sign \<or> ch = zhou) weeks_abc)
   \<and> weeks_abc \<in> set (split_on (\<lambda>ch. ch = comma) weeks_abc)
   \<and> py_int (ascii ''abc'') = Inl (ValueError (ascii ''abc''))
   \<and> (\<exists>t e'. py_int t = Inl e' \<and> (e' = ValueError t \<or> (\<exists>n. e' = ValueErrorDigits n))
        \<and> parse_week_ranges weeks_abc = Inl e'
        \<and> class_event sample_ical (midnight 2024 2 26) sample_configs
            (sample_class (ascii ''Algebra'') weeks_abc) = Inl e'
        \<and> convert_class_schedule_to_ics sample_ical (midnight 2024 2 26)
            [sample_class (ascii ''Algebra'') weeks_1_to_16,
             sample_class (ascii ''Algebra'') weeks_abc]
            sample_configs None = (Some e', None))"
proof -
  let ?good = "sample_class (ascii ''Algebra'') weeks_1_to_16"
  let ?bad = "sample_class (ascii ''Algebra'') weeks_abc"
  have a: "?bad \<in> set [?good, ?bad]"
    by simp
  have b: "weeks_abc \<in> set (split_on (\<lambda>ch. ch = comma) (zcd ?bad))"
    by (simp add: sample_class_def weeks_abc_def char_defs)
  have c: "ascii ''abc'' \<in> set (split_on (\<lambda>ch. ch = minus_sign \<or> ch = zhou) weeks_abc)"
    by (simp add: weeks_abc_def char_defs)
  have d: "ascii ''abc'' \<noteq> []"
    by (simp add: ascii_def)
  have e: "py_int (ascii ''abc'') = Inl (ValueError (ascii ''abc''))"
    by (simp add: int_defs char_defs)
  have z: "zcd ?bad = weeks_abc"
    by (simp add: sample_class_def)
  have l: "[?good, ?bad] = [?good] @ ?bad # []"
    by simp
  have g: "\<forall>b\<in>set [?good].
      \<exists>ev. class_event sample_ical (midnight 2024 2 26) sample_configs b = Inr ev"
    by (simp add: sample_translated_16)
  from malformed_week_token_aborts_run
    [OF a b c d e, of sample_ical "midnight 2024 2 26" sample_configs None, unfolded z]
  obtain t e' where T: "py_int t = Inl e' \<and> (e' = ValueError t \<or> (\<exists>n. e' = ValueErrorDigits n))
    \<and> parse_week_ranges weeks_abc = Inl e'
    \<and> class_event sample_ical (midnight 2024 2 26) sample_configs ?bad = Inl e'
    \<and> (\<exists>e''. convert_class_schedule_to_ics sample_ical (midnight 2024 2 26) [?good, ?bad]
            sample_configs None = (Some e'', None))
    \<and> (\<forall>before rest. [?good, ?bad] = before @ ?bad # rest
      \<longrightarrow> (\<forall>b\<in>set before.
            \<exists>ev. class_event sample_ical (midnight 2024 2 26) sample_configs b = Inr ev)
      \<longrightarrow> convert_class_schedule_to_ics sample_ical (midnight 2024 2 26) [?good, ?bad]
            sample_configs None = (Some e', None))"
    by (elim exE) (rule that)
  note first = T[THEN conjunct2, THEN conjunct2, THEN conjunct2, THEN conjunct2, THEN conjunct2,
      THEN spec, THEN spec, THEN mp, THEN mp, OF l g]
  from T first have "py_int t = Inl e' \<and> (e' = ValueError t \<or> (\<exists>n. e' = ValueErrorDigits n))
        \<and> parse_week_ranges weeks_abc = Inl e'
        \<and> class_event sample_ical (midnight 2024 2 26) sample_configs ?bad = Inl e'
        \<and> convert_class_schedule_to_ics sample_ical (midnight 2024 2 26) [?good, ?bad]
            sample_configs None = (Some e', None)"
    by (elim conjE) (intro conjI, assumption+)
  then have "\<exists>t e'. py_int t = Inl e' \<and> (e' = ValueError t \<or> (\<exists>n. e' = ValueErrorDigits n))
        \<and> parse_week_ranges weeks_abc = Inl e'
        \<and> class_event sample_ical (midnight 2024 2 26) sample_configs ?bad = Inl e'
        \<and> convert_class_schedule_to_ics sample_ical (midnight 2024 2 26) [?good, ?bad]
            sample_configs None = (Some e', None)"
    by (intro exI)
  with b c e show ?thesis
    unfolding z by (intro conjI)
qed




end
